theory Spec2Isabelle
  imports Main "HOL-Library.Word"
begin

section \<open>JavaScript values used by the validators\<close>

text \<open>
  A JavaScript string is a sequence of UTF-16 code units; \<open>s.length\<close> counts code units.
  The validators of \<open>utils/validators.ts\<close> only use \<open>trim\<close>, \<open>length\<close>,
  \<open>startsWith\<close>, \<open>split('')\<close>, \<open>RegExp.test\<close> and \<open>Number\<close> on them.
\<close>

type_synonym code_unit = "16 word"
type_synonym jsstring = "code_unit list"

definition ascii :: "string \<Rightarrow> jsstring" where
  "ascii cs = map of_char cs"

text \<open>
  \<open>String.prototype.trim\<close> strips the code points of the productions WhiteSpace and
  LineTerminator (ECMA-262): TAB, LF, VT, FF, CR, SP, NBSP, U+1680, U+2000..U+200A, LS, PS,
  U+202F, U+205F, U+3000 and the byte order mark U+FEFF.
\<close>

definition isWhiteSpace :: "code_unit \<Rightarrow> bool" where
  "isWhiteSpace c =
     (c = 0x9 \<or> c = 0xA \<or> c = 0xB \<or> c = 0xC \<or> c = 0xD \<or> c = 0x20 \<or> c = 0xA0 \<or>
      c = 0x1680 \<or> (0x2000 \<le> c \<and> c \<le> 0x200A) \<or> c = 0x2028 \<or> c = 0x2029 \<or>
      c = 0x202F \<or> c = 0x205F \<or> c = 0x3000 \<or> c = 0xFEFF)"

definition trimStart :: "jsstring \<Rightarrow> jsstring" where
  "trimStart s = dropWhile isWhiteSpace s"

definition trimEnd :: "jsstring \<Rightarrow> jsstring" where
  "trimEnd s = rev (dropWhile isWhiteSpace (rev s))"

definition trim :: "jsstring \<Rightarrow> jsstring" where
  "trim s = trimEnd (trimStart s)"

text \<open>
  The character class \<open>\d\<close> of a regular expression without the \<open>u\<close> flag is
  exactly \<open>[0-9]\<close>.
\<close>

definition isDigit :: "code_unit \<Rightarrow> bool" where
  "isDigit c = (0x30 \<le> c \<and> c \<le> 0x39)"

text \<open>
  \<open>/^\d{n}$/.test(s)\<close>: without the \<open>m\<close> flag \<open>^\<close> is the start of the input
  and \<open>$\<close> its end, so the matcher consumes \<open>n\<close> digits from the first code unit on and
  then requires the input to be exhausted.
\<close>

primrec test_digits_exact :: "nat \<Rightarrow> jsstring \<Rightarrow> bool" where
  "test_digits_exact 0 s = (s = [])"
| "test_digits_exact (Suc n) s =
     (case s of [] \<Rightarrow> False | c # cs \<Rightarrow> isDigit c \<and> test_digits_exact n cs)"

text \<open>\<open>/^\d+$/.test(s)\<close>: one digit, then either the end of the input or more digits.\<close>

fun test_digits_plus :: "jsstring \<Rightarrow> bool" where
  "test_digits_plus [] = False"
| "test_digits_plus (c # cs) = (isDigit c \<and> (cs = [] \<or> test_digits_plus cs))"

text \<open>\<open>s.startsWith(p)\<close> compares the code units of \<open>p\<close> with those of \<open>s\<close> from index 0.\<close>

fun startsWith :: "jsstring \<Rightarrow> jsstring \<Rightarrow> bool" where
  "startsWith s [] = True"
| "startsWith [] (p # ps) = False"
| "startsWith (c # cs) (p # ps) = (c = p \<and> startsWith cs ps)"

text \<open>\<open>Array.prototype.some\<close>: true as soon as one element satisfies the callback.\<close>

fun array_some :: "('a \<Rightarrow> bool) \<Rightarrow> 'a list \<Rightarrow> bool" where
  "array_some p [] = False"
| "array_some p (x # xs) = (p x \<or> array_some p xs)"

text \<open>
  The values the arithmetic of \<open>validateRUC\<close> can meet: a number (every number that occurs
  is an integer far below \<open>2 ^ 53\<close>, so doubles are exact and \<open>int\<close> models them), \<open>NaN\<close>,
  and \<open>undefined\<close>, which is what reading an array out of range yields.
\<close>

datatype jsval = Num int | NaN | Undefined

definition js_index :: "jsval list \<Rightarrow> nat \<Rightarrow> jsval" where
  "js_index xs i = (if i < length xs then xs ! i else Undefined)"

fun js_mul :: "jsval \<Rightarrow> jsval \<Rightarrow> jsval" where
  "js_mul (Num a) (Num b) = Num (a * b)"
| "js_mul _ _ = NaN"

fun js_add :: "jsval \<Rightarrow> jsval \<Rightarrow> jsval" where
  "js_add (Num a) (Num b) = Num (a + b)"
| "js_add _ _ = NaN"

fun js_sub :: "jsval \<Rightarrow> jsval \<Rightarrow> jsval" where
  "js_sub (Num a) (Num b) = Num (a - b)"
| "js_sub _ _ = NaN"

text \<open>The remainder operator \<open>%\<close> truncates: the result has the sign of the dividend.\<close>

fun js_rem :: "jsval \<Rightarrow> jsval \<Rightarrow> jsval" where
  "js_rem (Num a) (Num b) = (if b = 0 then NaN else Num (sgn a * (\<bar>a\<bar> mod \<bar>b\<bar>)))"
| "js_rem _ _ = NaN"

text \<open>Strict equality \<open>===\<close>: \<open>NaN\<close> equals nothing, \<open>undefined\<close> only itself.\<close>

fun js_strict_eq :: "jsval \<Rightarrow> jsval \<Rightarrow> bool" where
  "js_strict_eq (Num a) (Num b) = (a = b)"
| "js_strict_eq Undefined Undefined = True"
| "js_strict_eq _ _ = False"

text \<open>
  \<open>Number\<close> applied to a string of one code unit, which is what \<open>split('')\<close> produces:
  a decimal digit is its value, a white space character trims to the empty string, which
  converts to 0, and anything else is \<open>NaN\<close>.
\<close>

definition Number_unit :: "code_unit \<Rightarrow> jsval" where
  "Number_unit c =
     (if isDigit c then Num (uint c - 48) else if isWhiteSpace c then Num 0 else NaN)"

text \<open>The decimal rendering of a non-negative integer in a template literal.\<close>

fun toString :: "nat \<Rightarrow> jsstring" where
  "toString n =
     (if n < 10 then [of_nat (48 + n)]
      else toString (n div 10) @ [of_nat (48 + n mod 10)])"

declare toString.simps [simp del]

section \<open>The module of constants\<close>

text \<open>
  \<open>validators.ts\<close> imports three bindings from \<open>./constants\<close>. The validators take them
  as an environment, so that what they read from outside their arguments is explicit.
\<close>

record constants =
  RUC_LENGTH :: nat
  RUC_VALID_PREFIXES :: "jsstring list"
  RUC_FACTORS :: "jsval list"

definition constants_module :: constants where
  "constants_module =
     \<lparr>RUC_LENGTH = 11,
      RUC_VALID_PREFIXES = [ascii ''10'', ascii ''15'', ascii ''17'', ascii ''20''],
      RUC_FACTORS = [Num 5, Num 4, Num 3, Num 2, Num 7, Num 6, Num 5, Num 4, Num 3, Num 2]\<rparr>"

section \<open>validateRUC\<close>

text \<open>The loop \<open>for (let i = 0; i < 10; i++) sum += digits[i] * RUC_FACTORS[i]\<close>.\<close>

function sum_loop :: "jsval list \<Rightarrow> jsval list \<Rightarrow> nat \<Rightarrow> jsval \<Rightarrow> jsval" where
  "sum_loop digits factors i acc =
     (if i < 10
      then sum_loop digits factors (i + 1)
             (js_add acc (js_mul (js_index digits i) (js_index factors i)))
      else acc)"
  by pat_completeness auto
termination
  by (relation "measure (\<lambda>(digits, factors, i, acc). 10 - i)") auto

declare sum_loop.simps [simp del]

text \<open>Lines 35 to 51 of the function: the expected check digit of an array of digits.\<close>

definition expectedDigit :: "constants \<Rightarrow> jsval list \<Rightarrow> jsval" where
  "expectedDigit K digits =
     (let acc = sum_loop digits (RUC_FACTORS K) 0 (Num 0);
          remainder = js_rem acc (Num 11);
          checkDigit = js_sub (Num 11) remainder
      in if js_strict_eq checkDigit (Num 10) then Num 0
         else if js_strict_eq checkDigit (Num 11) then Num 1
         else checkDigit)"

definition validateRUC_on :: "constants \<Rightarrow> jsstring \<Rightarrow> bool" where
  "validateRUC_on K ruc =
     (let cleanRuc = trim ruc in
      if \<not> test_digits_exact 11 cleanRuc then False
      else
        let hasValidPrefix =
              array_some (\<lambda>prefix. startsWith cleanRuc prefix) (RUC_VALID_PREFIXES K)
        in if \<not> hasValidPrefix then False
           else
             let digits = map Number_unit cleanRuc
             in js_strict_eq (js_index digits 10) (expectedDigit K digits))"

definition validateRUC :: "jsstring \<Rightarrow> bool" where
  "validateRUC ruc = validateRUC_on constants_module ruc"

section \<open>getRUCError\<close>

definition msg_required :: jsstring where
  "msg_required = ascii ''El RUC es requerido''"

definition msg_digits_only :: jsstring where
  "msg_digits_only = ascii ''El RUC solo debe contener n'' @ [0xFA] @ ascii ''meros''"

definition msg_length :: "constants \<Rightarrow> jsstring" where
  "msg_length K =
     ascii ''El RUC debe tener exactamente '' @ toString (RUC_LENGTH K) @
     ascii '' d'' @ [0xED] @ ascii ''gitos''"

definition msg_prefix :: jsstring where
  "msg_prefix = ascii ''El RUC debe iniciar con 10, 15, 17 o 20''"

definition msg_not_valid :: jsstring where
  "msg_not_valid = ascii ''El RUC ingresado no es v'' @ [0xE1] @ ascii ''lido''"

definition getRUCError_on :: "constants \<Rightarrow> jsstring \<Rightarrow> jsstring option" where
  "getRUCError_on K ruc =
     (let cleanRuc = trim ruc in
      if length cleanRuc = 0 then Some msg_required
      else if \<not> test_digits_plus cleanRuc then Some msg_digits_only
      else if length cleanRuc \<noteq> RUC_LENGTH K then Some (msg_length K)
      else
        let hasValidPrefix =
              array_some (\<lambda>prefix. startsWith cleanRuc prefix) (RUC_VALID_PREFIXES K)
        in if \<not> hasValidPrefix then Some msg_prefix
           else if \<not> validateRUC_on K cleanRuc then Some msg_not_valid
           else None)"

definition getRUCError :: "jsstring \<Rightarrow> jsstring option" where
  "getRUCError ruc = getRUCError_on constants_module ruc"

section \<open>The length validators\<close>

definition validateUsername :: "jsstring \<Rightarrow> bool" where
  "validateUsername username =
     (let clean = trim username in length clean \<ge> 3 \<and> length clean \<le> 50)"

definition validatePassword :: "jsstring \<Rightarrow> bool" where
  "validatePassword password = (length password \<ge> 4)"

definition validateClientName :: "jsstring \<Rightarrow> bool" where
  "validateClientName name =
     (let clean = trim name in length clean \<ge> 2 \<and> length clean \<le> 200)"

section \<open>The rules of the specification, in its own words\<close>

text \<open>The value of a decimal digit character.\<close>

definition digit_value :: "code_unit \<Rightarrow> int" where
  "digit_value c = uint c - 48"

definition spec_weights :: "int list" where
  "spec_weights = [5, 4, 3, 2, 7, 6, 5, 4, 3, 2]"

definition spec_prefixes :: "jsstring set" where
  "spec_prefixes = {ascii ''10'', ascii ''15'', ascii ''17'', ascii ''20''}"

text \<open>
  Steps 5 to 8 of the specification's algorithm: the weighted sum of the digits at index 0
  to 9, its remainder modulo 11, the check digit \<open>11 - remainder\<close>, and its normal form.
\<close>

definition spec_expected :: "jsstring \<Rightarrow> int" where
  "spec_expected d =
     (let total = (\<Sum>i = 0..9. digit_value (d ! i) * spec_weights ! i);
          remainder = total mod 11;
          checkDigit = 11 - remainder
      in if checkDigit = 10 then 0 else if checkDigit = 11 then 1 else checkDigit)"

text \<open>The invariant of the specification's data model: when a RUC is valid.\<close>

definition spec_isValid :: "jsstring \<Rightarrow> bool" where
  "spec_isValid s =
     (let t = trim s
      in length t = 11 \<and> list_all isDigit t \<and> take 2 t \<in> spec_prefixes \<and>
         digit_value (t ! 10) = spec_expected t)"

section \<open>Facts about the string operations\<close>

lemma test_digits_exact_iff:
  "test_digits_exact n s \<longleftrightarrow> length s = n \<and> list_all isDigit s"
  by (induction n arbitrary: s) (auto split: list.splits)

lemma test_digits_plus_iff:
  "test_digits_plus s \<longleftrightarrow> s \<noteq> [] \<and> list_all isDigit s"
  by (induction s rule: test_digits_plus.induct) auto

lemma startsWith_iff: "startsWith s p \<longleftrightarrow> take (length p) s = p"
  by (induction s p rule: startsWith.induct) auto

lemma array_some_iff: "array_some p xs \<longleftrightarrow> list_ex p xs"
  by (induction xs) auto

subsection \<open>Trimming\<close>

lemma dropWhile_fix: "xs = [] \<or> \<not> P (hd xs) \<Longrightarrow> dropWhile P xs = xs"
  by (cases xs) auto

lemma hd_dropWhile_not: "dropWhile P xs = [] \<or> \<not> P (hd (dropWhile P xs))"
  by (induction xs) auto

lemma trimEnd_prefix: "\<exists>n. trimEnd s = take n s"
proof -
  have "trimEnd s = rev (drop (length (takeWhile isWhiteSpace (rev s))) (rev s))"
    by (simp add: trimEnd_def dropWhile_eq_drop)
  also have "\<dots> = take (length s - length (takeWhile isWhiteSpace (rev s))) s"
    by (simp add: rev_drop)
  finally show ?thesis by blast
qed

lemma trimEnd_idem: "trimEnd (trimEnd s) = trimEnd s"
  by (simp add: trimEnd_def)

lemma trimStart_trimEnd:
  assumes "s = [] \<or> \<not> isWhiteSpace (hd s)"
  shows "trimStart (trimEnd s) = trimEnd s"
proof -
  obtain n where n: "trimEnd s = take n s" using trimEnd_prefix by blast
  have "trimEnd s = [] \<or> \<not> isWhiteSpace (hd (trimEnd s))"
  proof (cases "trimEnd s = []")
    case False
    with n have "n \<noteq> 0" "s \<noteq> []" by auto
    then have "hd (take n s) = hd s" by (cases s; cases n) auto
    with assms \<open>s \<noteq> []\<close> n show ?thesis by simp
  qed simp
  then show ?thesis unfolding trimStart_def by (rule dropWhile_fix)
qed

lemma trim_idem: "trim (trim s) = trim s"
proof -
  have "trimStart s = [] \<or> \<not> isWhiteSpace (hd (trimStart s))"
    unfolding trimStart_def by (rule hd_dropWhile_not)
  then have "trimStart (trimEnd (trimStart s)) = trimEnd (trimStart s)"
    by (rule trimStart_trimEnd)
  then show ?thesis by (simp add: trim_def trimEnd_idem)
qed

lemma trim_fix:
  assumes "s = [] \<or> (\<not> isWhiteSpace (hd s) \<and> \<not> isWhiteSpace (last s))"
  shows "trim s = s"
proof (cases "s = []")
  case True
  then show ?thesis by (simp add: trim_def trimStart_def trimEnd_def)
next
  case False
  with assms have h: "\<not> isWhiteSpace (hd s)" and l: "\<not> isWhiteSpace (last s)" by auto
  have 1: "trimStart s = s" unfolding trimStart_def using h by (intro dropWhile_fix) simp
  have "dropWhile isWhiteSpace (rev s) = rev s"
    using l False by (intro dropWhile_fix) (simp add: hd_rev)
  then have "trimEnd s = s" by (simp add: trimEnd_def)
  with 1 show ?thesis by (simp add: trim_def)
qed

lemma isDigit_not_isWhiteSpace: "isDigit c \<Longrightarrow> \<not> isWhiteSpace c"
  by (auto simp: isDigit_def isWhiteSpace_def word_le_nat_alt)

lemma trim_digits: "list_all isDigit t \<Longrightarrow> trim t = t"
proof (rule trim_fix)
  assume a: "list_all isDigit t"
  show "t = [] \<or> \<not> isWhiteSpace (hd t) \<and> \<not> isWhiteSpace (last t)"
  proof (cases "t = []")
    case False
    then have "hd t \<in> set t" "last t \<in> set t" by simp_all
    with a have "isDigit (hd t)" "isDigit (last t)" by (simp_all add: list_all_iff)
    then show ?thesis by (simp add: isDigit_not_isWhiteSpace)
  qed simp
qed

section \<open>The check digit computed by the loop\<close>

lemma sum_loop_Num:
  assumes "\<And>j. j < 10 \<Longrightarrow> js_index ds j = Num (d j)"
      and "\<And>j. j < 10 \<Longrightarrow> js_index fs j = Num (f j)"
  shows "sum_loop ds fs i (Num a) = Num (a + (\<Sum>j = i..<10. d j * f j))"
proof (induction "10 - i" arbitrary: i a)
  case 0
  then show ?case by (simp add: sum_loop.simps)
next
  case (Suc n)
  then have i: "i < 10" and n: "n = 10 - (i + 1)" by simp_all
  have "sum_loop ds fs i (Num a) = sum_loop ds fs (i + 1) (Num (a + d i * f i))"
    using i by (subst sum_loop.simps) (simp add: assms)
  also have "\<dots> = Num (a + d i * f i + (\<Sum>j = i + 1..<10. d j * f j))"
    using Suc.hyps(1) [OF n] .
  also have "a + d i * f i + (\<Sum>j = i + 1..<10. d j * f j) = a + (\<Sum>j = i..<10. d j * f j)"
    using i by (simp add: sum.atLeast_Suc_lessThan)
  finally show ?case .
qed

lemma js_index_Number_unit:
  "j < length t \<Longrightarrow> isDigit (t ! j) \<Longrightarrow>
   js_index (map Number_unit t) j = Num (digit_value (t ! j))"
  by (simp add: js_index_def Number_unit_def digit_value_def)

lemma js_index_factors:
  "j < 10 \<Longrightarrow> js_index (RUC_FACTORS constants_module) j = Num (spec_weights ! j)"
proof -
  assume "j < 10"
  then have "j \<in> {0, 1, 2, 3, 4, 5, 6, 7, 8, 9}" by auto
  then show ?thesis
    by (auto simp: js_index_def constants_module_def spec_weights_def)
qed

lemma digit_value_range: "isDigit c \<Longrightarrow> 0 \<le> digit_value c \<and> digit_value c \<le> 9"
  by (simp add: isDigit_def digit_value_def word_le_def)

lemma spec_weights_nonneg: "j < 10 \<Longrightarrow> 0 \<le> spec_weights ! j"
proof -
  assume "j < 10"
  then have "j \<in> {0, 1, 2, 3, 4, 5, 6, 7, 8, 9}" by auto
  then show ?thesis by (auto simp: spec_weights_def)
qed

lemma upto9: "{0..9::nat} = {0..<10}"
  by auto

lemma weighted_sum_nonneg:
  assumes "\<And>j. j < 10 \<Longrightarrow> isDigit (t ! j)"
  shows "0 \<le> (\<Sum>j = 0..<10. digit_value (t ! j) * spec_weights ! j)"
proof (rule sum_nonneg)
  fix j assume "j \<in> {0..<10::nat}"
  then have j: "j < 10" by simp
  then have "0 \<le> digit_value (t ! j)" using assms digit_value_range by blast
  with spec_weights_nonneg [OF j] show "0 \<le> digit_value (t ! j) * spec_weights ! j" by simp
qed

lemma sum_loop_digits:
  assumes "10 \<le> length t" "\<And>j. j < 10 \<Longrightarrow> isDigit (t ! j)"
  shows "sum_loop (map Number_unit t) (RUC_FACTORS constants_module) 0 (Num 0) =
         Num (\<Sum>j = 0..<10. digit_value (t ! j) * spec_weights ! j)"
proof -
  have "sum_loop (map Number_unit t) (RUC_FACTORS constants_module) 0 (Num 0) =
        Num (0 + (\<Sum>j = 0..<10. digit_value (t ! j) * spec_weights ! j))"
  proof (rule sum_loop_Num)
    fix j :: nat assume j: "j < 10"
    with assms(1) have "j < length t" by simp
    then show "js_index (map Number_unit t) j = Num (digit_value (t ! j))"
      using assms(2) [OF j] by (rule js_index_Number_unit)
    show "js_index (RUC_FACTORS constants_module) j = Num (spec_weights ! j)"
      using j by (rule js_index_factors)
  qed
  then show ?thesis by simp
qed

lemma expectedDigit_digits:
  assumes "10 \<le> length t" "\<And>j. j < 10 \<Longrightarrow> isDigit (t ! j)"
  shows "expectedDigit constants_module (map Number_unit t) = Num (spec_expected t)"
proof -
  have "0 \<le> (\<Sum>j = 0..<10. digit_value (t ! j) * spec_weights ! j)"
    using assms(2) by (rule weighted_sum_nonneg)
  then show ?thesis
    by (simp add: expectedDigit_def spec_expected_def Let_def upto9 sgn_if
        sum_loop_digits [OF assms])
qed

lemma hasValidPrefix_iff:
  "array_some (\<lambda>prefix. startsWith t prefix) (RUC_VALID_PREFIXES constants_module) \<longleftrightarrow>
   take 2 t \<in> spec_prefixes"
  by (simp add: constants_module_def startsWith_iff spec_prefixes_def ascii_def
      numeral_2_eq_2)

lemma validateRUC_spec: "validateRUC s \<longleftrightarrow> spec_isValid s"
proof (cases "length (trim s) = 11 \<and> list_all isDigit (trim s)")
  case True
  then have d: "isDigit (trim s ! j)" if "j < 11" for j
    using that by (simp add: list_all_length)
  from True d have "js_index (map Number_unit (trim s)) 10 = Num (digit_value (trim s ! 10))"
    by (simp add: js_index_Number_unit)
  moreover from True d
  have "expectedDigit constants_module (map Number_unit (trim s)) = Num (spec_expected (trim s))"
    by (intro expectedDigit_digits) simp_all
  ultimately show ?thesis using True
    by (simp add: validateRUC_def validateRUC_on_def spec_isValid_def Let_def
        test_digits_exact_iff hasValidPrefix_iff)
next
  case False
  then show ?thesis
    by (auto simp: validateRUC_def validateRUC_on_def spec_isValid_def Let_def
        test_digits_exact_iff)
qed



lemma spec_expected_range: "0 \<le> spec_expected t \<and> spec_expected t \<le> 9"
proof -
  let ?r = "(\<Sum>i = 0..9. digit_value (t ! i) * spec_weights ! i) mod 11"
  have "0 \<le> ?r" "?r < 11" by simp_all
  then show ?thesis by (auto simp: spec_expected_def Let_def)
qed

lemma spec_expected_append:
  "length body = 10 \<Longrightarrow> spec_expected (body @ [c]) = spec_expected body"
  by (simp add: spec_expected_def nth_append)

lemma expectedDigit_body:
  assumes "length body = 10" "list_all isDigit body"
  shows "expectedDigit constants_module (map Number_unit (body @ [c])) = Num (spec_expected body)"
proof -
  have "expectedDigit constants_module (map Number_unit (body @ [c])) =
        Num (spec_expected (body @ [c]))"
  proof (rule expectedDigit_digits)
    show "10 \<le> length (body @ [c])" using assms(1) by simp
    fix j :: nat assume "j < 10"
    then show "isDigit ((body @ [c]) ! j)"
      using assms by (simp add: nth_append list_all_length)
  qed
  then show ?thesis using assms(1) by (simp add: spec_expected_append)
qed

subsection \<open>The one code unit of a digit value\<close>

lemma digit_of_value:
  assumes "0 \<le> e" "e \<le> 9"
  shows "isDigit (word_of_int (48 + e)) \<and> digit_value (word_of_int (48 + e)) = e"
proof -
  have "uint (word_of_int (48 + e) :: code_unit) = (48 + e) mod 2 ^ LENGTH(16)"
    by (rule uint_word_of_int)
  also have "\<dots> = 48 + e" using assms by simp
  finally have u: "uint (word_of_int (48 + e) :: code_unit) = 48 + e" .
  have "isDigit (word_of_int (48 + e))"
    unfolding isDigit_def word_le_def u using assms by simp
  moreover have "digit_value (word_of_int (48 + e)) = e"
    unfolding digit_value_def u by simp
  ultimately show ?thesis ..
qed

lemma digit_value_inj: "digit_value c = digit_value c' \<Longrightarrow> c = c'"
  by (simp add: digit_value_def word_uint_eq_iff)

section \<open>Facts about validateRUC and getRUCError\<close>

lemma validateRUC_trim: "validateRUC (trim s) = validateRUC s"
  by (simp add: validateRUC_def validateRUC_on_def trim_idem)

lemma validateRUC_body_iff:
  assumes "length body = 10" "list_all isDigit body" "take 2 body \<in> spec_prefixes"
  shows "validateRUC (body @ [c]) \<longleftrightarrow> isDigit c \<and> digit_value c = spec_expected body"
proof (cases "isDigit c")
  case True
  with assms(2) have "list_all isDigit (body @ [c])" by simp
  then have "trim (body @ [c]) = body @ [c]" by (rule trim_digits)
  with True assms show ?thesis
    by (simp add: validateRUC_spec spec_isValid_def spec_expected_append nth_append)
next
  case False
  show ?thesis
  proof
    assume "validateRUC (body @ [c])"
    then have "length (trim (body @ [c])) = 11" "list_all isDigit (trim (body @ [c]))"
      by (simp_all add: validateRUC_spec spec_isValid_def Let_def)
    moreover have "\<exists>n. trim (body @ [c]) = take n (trimStart (body @ [c]))"
      unfolding trim_def by (rule trimEnd_prefix)
    moreover have "trimStart (body @ [c]) = body @ [c]"
    proof -
      from assms(1) have "body \<noteq> []" by auto
      with assms(2) have "isDigit (hd body)" by (cases body) simp_all
      then have "\<not> isWhiteSpace (hd (body @ [c]))"
        using \<open>body \<noteq> []\<close> by (simp add: isDigit_not_isWhiteSpace)
      then show ?thesis unfolding trimStart_def by (intro dropWhile_fix) simp
    qed
    ultimately obtain n where n: "length (take n (body @ [c])) = 11"
      "list_all isDigit (take n (body @ [c]))" by auto
    from n(1) assms(1) have "11 \<le> n" by simp
    with assms(1) have "take n (body @ [c]) = body @ [c]" by simp
    with n(2) have "list_all isDigit (body @ [c])" by (simp only:)
    then have "isDigit c" by simp
    with False show "isDigit c \<and> digit_value c = spec_expected body" by simp
  next
    assume "isDigit c \<and> digit_value c = spec_expected body"
    with False show "validateRUC (body @ [c])" by simp
  qed
qed

lemma getRUCError_trim: "getRUCError (trim s) = getRUCError s"
  by (simp add: getRUCError_def getRUCError_on_def trim_idem)

lemma not_all_digits_iff: "\<not> list_all isDigit t \<longleftrightarrow> list_ex (\<lambda>c. \<not> isDigit c) t"
  by (simp add: list_all_iff list_ex_iff)

lemma getRUCError_rules:
  "getRUCError s =
     (if trim s = [] then Some msg_required
      else if list_ex (\<lambda>c. \<not> isDigit c) (trim s) then Some msg_digits_only
      else if length (trim s) \<noteq> 11 then Some (msg_length constants_module)
      else if take 2 (trim s) \<notin> spec_prefixes then Some msg_prefix
      else if \<not> validateRUC s then Some msg_not_valid
      else None)"
proof -
  have "validateRUC_on constants_module (trim s) = validateRUC s"
    using validateRUC_trim [of s] by (simp add: validateRUC_def)
  moreover have "RUC_LENGTH constants_module = 11"
    by (simp add: constants_module_def)
  ultimately show ?thesis
    by (simp add: getRUCError_def getRUCError_on_def Let_def test_digits_plus_iff
        hasValidPrefix_iff not_all_digits_iff [symmetric])
qed

lemma getRUCError_None_iff: "getRUCError s = None \<longleftrightarrow> validateRUC s"
  by (auto simp: getRUCError_rules validateRUC_spec spec_isValid_def Let_def
      not_all_digits_iff [symmetric])

lemma msg_length_11:
  "msg_length constants_module =
     ascii ''El RUC debe tener exactamente 11 d'' @ [0xED] @ ascii ''gitos''"
  by (simp add: msg_length_def constants_module_def toString.simps ascii_def)

lemma messages_distinct:
  "distinct [msg_required, msg_digits_only, msg_length constants_module, msg_prefix,
     msg_not_valid]"
  by (simp add: msg_length_11 msg_required_def msg_digits_only_def msg_prefix_def
      msg_not_valid_def ascii_def)


lemma in_set_dropWhile: "x \<in> set xs \<Longrightarrow> \<not> P x \<Longrightarrow> x \<in> set (dropWhile P xs)"
  by (induction xs) auto

lemma in_set_trim: "c \<in> set s \<Longrightarrow> \<not> isWhiteSpace c \<Longrightarrow> c \<in> set (trim s)"
  by (simp add: trim_def trimStart_def trimEnd_def in_set_dropWhile)

lemma getRUCError_non_digit:
  assumes "c \<in> set s" "\<not> isDigit c" "\<not> isWhiteSpace c"
  shows "getRUCError s = Some msg_digits_only"
proof -
  from assms have "c \<in> set (trim s)" by (simp add: in_set_trim)
  with assms(2) have "trim s \<noteq> []" "list_ex (\<lambda>c. \<not> isDigit c) (trim s)"
    by (auto simp: list_ex_iff)
  then show ?thesis by (simp add: getRUCError_rules)
qed

section \<open>Worked examples\<close>

lemmas eval_defs =
  validateRUC_def validateRUC_on_def constants_module_def trim_def trimStart_def trimEnd_def
  ascii_def isWhiteSpace_def test_digits_exact_iff isDigit_def expectedDigit_def
  sum_loop.simps js_index_def Number_unit_def Let_def

lemma validateRUC_20123456786: "validateRUC (ascii ''20123456786'')"
  by (simp add: eval_defs)

lemma validateRUC_20123456780: "\<not> validateRUC (ascii ''20123456780'')"
  by (simp add: eval_defs)

lemma validateRUC_30123456786: "\<not> validateRUC (ascii ''30123456786'')"
  by (simp add: eval_defs)

lemma validateRUC_padded: "validateRUC (ascii '' 20123456786  '')"
  by (simp add: eval_defs)


lemmas error_eval_defs =
  getRUCError_def getRUCError_on_def validateRUC_on_def constants_module_def trim_def
  trimStart_def trimEnd_def ascii_def isWhiteSpace_def test_digits_exact_iff isDigit_def
  expectedDigit_def sum_loop.simps js_index_def Number_unit_def Let_def

lemma getRUCError_2012345678a: "getRUCError (ascii ''2012345678a'') = Some msg_digits_only"
  by (simp add: error_eval_defs)

lemma getRUCError_20123456786: "getRUCError (ascii ''20123456786'') = None"
  by (simp add: error_eval_defs)

lemma sum_upto9_unfold:
  "(\<Sum>i = 0..9::nat. f i) = f 0 + f 1 + f 2 + f 3 + f 4 + f 5 + f 6 + f 7 + f 8 + (f 9 :: int)"
  by (simp add: upto9 eval_nat_numeral)

lemmas rule_eval_defs =
  trim_def trimStart_def trimEnd_def ascii_def isWhiteSpace_def isDigit_def spec_prefixes_def
  spec_expected_def spec_weights_def digit_value_def sum_upto9_unfold Let_def

section \<open>validateRUC: properties\<close>

text \<open>
  C1. \<open>validateRUC\<close> returns true exactly when the trimmed input consists of 11 ASCII
  decimal digits, its first two characters are one of the prefixes 10, 15, 17 and 20, and
  its 11th digit is the expected check digit: the weighted sum of the first ten digits with
  the weights 5, 4, 3, 2, 7, 6, 5, 4, 3, 2, reduced modulo 11, subtracted from 11, with 10
  read as 0 and 11 read as 1. The right-hand side is \<^const>\<open>spec_isValid\<close>, written from
  the specification; the left-hand side is the function as the source computes it.
\<close>

theorem validateRUC_iff_rules: "validateRUC s \<longleftrightarrow> spec_isValid s"
  by (rule validateRUC_spec)

theorem validateRUC_iff_rules_witness:
  "spec_isValid (ascii ''20123456786'') \<and> \<not> spec_isValid (ascii ''20123456780'') \<and>
   \<not> spec_isValid (ascii ''30123456786'')"
  using validateRUC_iff_rules [of "ascii ''20123456786''"]
    validateRUC_iff_rules [of "ascii ''20123456780''"]
    validateRUC_iff_rules [of "ascii ''30123456786''"]
    validateRUC_20123456786 validateRUC_20123456780 validateRUC_30123456786
  by simp

text \<open>
  C6. \<open>validateRUC\<close> returns true only if the trimmed input has exactly 11 characters,
  all of them decimal digits, and starts with 10, 15, 17 or 20. Equivalently, a string that
  does not have 11 characters after trimming is invalid, and so is a string of 11 digits
  that does not start with an accepted prefix.
\<close>

theorem validateRUC_only_if_shape:
  "(validateRUC s \<longrightarrow>
      length (trim s) = 11 \<and> list_all isDigit (trim s) \<and> take 2 (trim s) \<in> spec_prefixes) \<and>
   (length (trim s) \<noteq> 11 \<longrightarrow> \<not> validateRUC s) \<and>
   (length (trim s) = 11 \<and> list_all isDigit (trim s) \<and> take 2 (trim s) \<notin> spec_prefixes
      \<longrightarrow> \<not> validateRUC s)"
  by (auto simp: validateRUC_spec spec_isValid_def Let_def)

theorem validateRUC_only_if_shape_witness:
  "validateRUC (ascii ''20123456786'') \<and>
   length (trim (ascii ''20123456786'')) = 11 \<and>
   list_all isDigit (trim (ascii ''20123456786'')) \<and>
   take 2 (trim (ascii ''20123456786'')) \<in> spec_prefixes \<and>
   length (trim (ascii ''2012345678'')) \<noteq> 11 \<and> \<not> validateRUC (ascii ''2012345678'') \<and>
   length (trim (ascii ''30123456786'')) = 11 \<and>
   list_all isDigit (trim (ascii ''30123456786'')) \<and>
   take 2 (trim (ascii ''30123456786'')) \<notin> spec_prefixes \<and>
   \<not> validateRUC (ascii ''30123456786'')"
proof -
  have a: "validateRUC (ascii ''20123456786'')" by (rule validateRUC_20123456786)
  have b: "length (trim (ascii ''2012345678'')) \<noteq> 11"
    by (simp add: trim_def trimStart_def trimEnd_def ascii_def isWhiteSpace_def)
  have c: "length (trim (ascii ''30123456786'')) = 11 \<and>
      list_all isDigit (trim (ascii ''30123456786'')) \<and>
      take 2 (trim (ascii ''30123456786'')) \<notin> spec_prefixes"
    by (simp add: trim_def trimStart_def trimEnd_def ascii_def isWhiteSpace_def isDigit_def
        spec_prefixes_def)
  from a b c validateRUC_only_if_shape [of "ascii ''20123456786''"]
    validateRUC_only_if_shape [of "ascii ''2012345678''"]
    validateRUC_only_if_shape [of "ascii ''30123456786''"]
  show ?thesis by blast
qed



text \<open>
  C10. For a body of ten digits that starts with an accepted prefix, the expected check
  digit that \<open>validateRUC\<close> computes is a single digit between 0 and 9 and is the same
  whatever stands at position 10; exactly one code unit at position 10 makes the string
  of 11 characters valid, and it is a decimal digit.
\<close>

theorem check_digit_unique:
  "length body = 10 \<and> list_all isDigit body \<and> take 2 body \<in> spec_prefixes \<longrightarrow>
     (\<exists>e. 0 \<le> e \<and> e \<le> 9 \<and>
          (\<forall>c. expectedDigit constants_module (map Number_unit (body @ [c])) = Num e)) \<and>
     (\<exists>!c. validateRUC (body @ [c])) \<and>
     (\<forall>c. validateRUC (body @ [c]) \<longrightarrow> isDigit c)"
proof (intro impI conjI)
  assume a: "length body = 10 \<and> list_all isDigit body \<and> take 2 body \<in> spec_prefixes"
  let ?e = "spec_expected body"
  from a have v: "validateRUC (body @ [c]) \<longleftrightarrow> isDigit c \<and> digit_value c = ?e" for c
    by (intro validateRUC_body_iff) simp_all
  have r: "0 \<le> ?e" "?e \<le> 9" using spec_expected_range [of body] by simp_all
  from a r show "\<exists>e. 0 \<le> e \<and> e \<le> 9 \<and>
      (\<forall>c. expectedDigit constants_module (map Number_unit (body @ [c])) = Num e)"
    using expectedDigit_body [of body] by blast
  show "\<exists>!c. validateRUC (body @ [c])"
  proof
    show "validateRUC (body @ [word_of_int (48 + ?e)])"
      using v r digit_of_value by blast
  next
    fix c assume "validateRUC (body @ [c])"
    then have "digit_value c = ?e" using v by blast
    also have "?e = digit_value (word_of_int (48 + ?e) :: code_unit)"
      using digit_of_value [OF r] by simp
    finally show "c = word_of_int (48 + ?e)" by (rule digit_value_inj)
  qed
  show "\<forall>c. validateRUC (body @ [c]) \<longrightarrow> isDigit c" using v by blast
qed

theorem check_digit_unique_witness:
  "length (ascii ''2012345678'') = 10 \<and> list_all isDigit (ascii ''2012345678'') \<and>
   take 2 (ascii ''2012345678'') \<in> spec_prefixes \<and>
   (\<exists>!c. validateRUC (ascii ''2012345678'' @ [c])) \<and>
   (\<exists>e. 0 \<le> e \<and> e \<le> 9 \<and>
      (\<forall>c. expectedDigit constants_module (map Number_unit (ascii ''2012345678'' @ [c])) = Num e))"
proof -
  have h: "length (ascii ''2012345678'') = 10 \<and> list_all isDigit (ascii ''2012345678'') \<and>
      take 2 (ascii ''2012345678'') \<in> spec_prefixes"
    by (simp add: ascii_def isDigit_def spec_prefixes_def)
  with check_digit_unique [of "ascii ''2012345678''"] show ?thesis by blast
qed

section \<open>getRUCError: properties\<close>

text \<open>
  C3. \<open>getRUCError\<close> returns \<open>null\<close> exactly when \<open>validateRUC\<close> returns true on
  the same input, and every invalid input gets a message.
\<close>

theorem getRUCError_None_iff_validateRUC:
  "(getRUCError s = None \<longleftrightarrow> validateRUC s) \<and>
   (\<not> validateRUC s \<longrightarrow> (\<exists>m. getRUCError s = Some m))"
  using getRUCError_None_iff [of s] by (cases "getRUCError s") auto

theorem getRUCError_None_iff_validateRUC_witness:
  "validateRUC (ascii ''20123456786'') \<and> \<not> validateRUC (ascii ''2012345678a'') \<and>
   (\<exists>m. getRUCError (ascii ''20123456780'') = Some m)"
  using getRUCError_None_iff_validateRUC [of "ascii ''20123456786''"]
    getRUCError_None_iff_validateRUC [of "ascii ''2012345678a''"]
    getRUCError_None_iff_validateRUC [of "ascii ''20123456780''"]
    getRUCError_20123456786 getRUCError_2012345678a validateRUC_20123456780
  by simp

text \<open>
  C4. \<open>getRUCError\<close> returns the message of the first violated rule, in this order:
  the trimmed input is empty; it contains a character that is not a digit; its length is
  not 11; its first two characters are not an accepted prefix; its last digit is not the
  expected check digit; otherwise there is no error. The five messages are pairwise
  distinct. In particular an input that has 11 characters after trimming, as every rule
  counts them, and contains a non-digit gets the digits-only message, not the length
  message; so does an input of 11 characters as typed that contains a character which is
  neither a digit nor white space.
\<close>

theorem getRUCError_first_violation:
  "getRUCError s =
     (if trim s = [] then Some msg_required
      else if list_ex (\<lambda>c. \<not> isDigit c) (trim s) then Some msg_digits_only
      else if length (trim s) \<noteq> 11 then Some (msg_length constants_module)
      else if take 2 (trim s) \<notin> spec_prefixes then Some msg_prefix
      else if digit_value (trim s ! 10) \<noteq> spec_expected (trim s) then Some msg_not_valid
      else None) \<and>
   distinct [msg_required, msg_digits_only, msg_length constants_module, msg_prefix,
     msg_not_valid] \<and>
   (length (trim s) = 11 \<and> list_ex (\<lambda>c. \<not> isDigit c) (trim s) \<longrightarrow>
      getRUCError s = Some msg_digits_only \<and>
      getRUCError s \<noteq> Some (msg_length constants_module)) \<and>
   (length s = 11 \<and> c \<in> set s \<and> \<not> isDigit c \<and> \<not> isWhiteSpace c \<longrightarrow>
      getRUCError s = Some msg_digits_only)"
proof (intro conjI impI)
  show "getRUCError s =
     (if trim s = [] then Some msg_required
      else if list_ex (\<lambda>c. \<not> isDigit c) (trim s) then Some msg_digits_only
      else if length (trim s) \<noteq> 11 then Some (msg_length constants_module)
      else if take 2 (trim s) \<notin> spec_prefixes then Some msg_prefix
      else if digit_value (trim s ! 10) \<noteq> spec_expected (trim s) then Some msg_not_valid
      else None)"
    by (simp add: getRUCError_rules validateRUC_spec spec_isValid_def Let_def
        not_all_digits_iff [symmetric])
next
  show "distinct [msg_required, msg_digits_only, msg_length constants_module, msg_prefix,
     msg_not_valid]"
    by (rule messages_distinct)
next
  assume a: "length (trim s) = 11 \<and> list_ex (\<lambda>c. \<not> isDigit c) (trim s)"
  then have "trim s \<noteq> []" by auto
  with a show "getRUCError s = Some msg_digits_only" by (simp add: getRUCError_rules)
  then show "getRUCError s \<noteq> Some (msg_length constants_module)"
    using messages_distinct by simp
next
  assume "length s = 11 \<and> c \<in> set s \<and> \<not> isDigit c \<and> \<not> isWhiteSpace c"
  then show "getRUCError s = Some msg_digits_only"
    by (intro getRUCError_non_digit [of c]) simp_all
qed

theorem getRUCError_first_violation_witness:
  "getRUCError [] = Some msg_required \<and>
   getRUCError (ascii ''  '') = Some msg_required \<and>
   getRUCError (ascii ''abc'') = Some msg_digits_only \<and>
   getRUCError (ascii ''3012345678'') = Some (msg_length constants_module) \<and>
   getRUCError (ascii ''30123456786'') = Some msg_prefix \<and>
   getRUCError (ascii ''20123456780'') = Some msg_not_valid \<and>
   getRUCError (ascii ''20123456786'') = None \<and>
   length (trim (ascii ''2012345678a'')) = 11 \<and>
   list_ex (\<lambda>c. \<not> isDigit c) (trim (ascii ''2012345678a'')) \<and>
   getRUCError (ascii ''2012345678a'') = Some msg_digits_only \<and>
   getRUCError (ascii ''2012345678a'') \<noteq> Some (msg_length constants_module) \<and>
   length (ascii '' 201234567a'') = 11 \<and> 0x61 \<in> set (ascii '' 201234567a'') \<and>
   \<not> isDigit 0x61 \<and> \<not> isWhiteSpace 0x61 \<and>
   getRUCError (ascii '' 201234567a'') = Some msg_digits_only"
proof -
  have h: "length (trim (ascii ''2012345678a'')) = 11 \<and>
      list_ex (\<lambda>c. \<not> isDigit c) (trim (ascii ''2012345678a''))"
    by (simp add: trim_def trimStart_def trimEnd_def ascii_def isWhiteSpace_def isDigit_def)
  have r: "length (ascii '' 201234567a'') = 11 \<and> 0x61 \<in> set (ascii '' 201234567a'') \<and>
      \<not> isDigit 0x61 \<and> \<not> isWhiteSpace 0x61"
    by (simp add: ascii_def isWhiteSpace_def isDigit_def)
  have 8: "getRUCError (ascii '' 201234567a'') = Some msg_digits_only"
    using r getRUCError_first_violation [of "ascii '' 201234567a''" "0x61"] by blast
  have 1: "getRUCError [] = Some msg_required"
    using getRUCError_first_violation [of "[]"] by (simp add: rule_eval_defs)
  have 2: "getRUCError (ascii ''  '') = Some msg_required"
    using getRUCError_first_violation [of "ascii ''  ''"] by (simp add: rule_eval_defs)
  have 3: "getRUCError (ascii ''abc'') = Some msg_digits_only"
    using getRUCError_first_violation [of "ascii ''abc''"] by (simp add: rule_eval_defs)
  have 4: "getRUCError (ascii ''3012345678'') = Some (msg_length constants_module)"
    using getRUCError_first_violation [of "ascii ''3012345678''"] by (simp add: rule_eval_defs)
  have 5: "getRUCError (ascii ''30123456786'') = Some msg_prefix"
    using getRUCError_first_violation [of "ascii ''30123456786''"] by (simp add: rule_eval_defs)
  have 6: "getRUCError (ascii ''20123456780'') = Some msg_not_valid"
    using getRUCError_first_violation [of "ascii ''20123456780''"] by (simp add: rule_eval_defs)
  have 7: "getRUCError (ascii ''20123456786'') = None"
    using getRUCError_first_violation [of "ascii ''20123456786''"] by (simp add: rule_eval_defs)
  from h r getRUCError_first_violation [of "ascii ''2012345678a''"] 1 2 3 4 5 6 7 8
  show ?thesis by blast
qed

text \<open>
  C9. Both functions are invariant under trimming their input:
  \<open>validateRUC(s) = validateRUC(s.trim())\<close> and
  \<open>getRUCError(s) = getRUCError(s.trim())\<close>.
\<close>

theorem validators_trim_invariant:
  "validateRUC s = validateRUC (trim s) \<and> getRUCError s = getRUCError (trim s)"
  by (simp add: validateRUC_trim getRUCError_trim)

theorem validators_trim_invariant_witness:
  "validateRUC (trim (ascii '' 20123456786  '')) \<and>
   getRUCError (trim (ascii ''  2012345678a '')) = Some msg_digits_only"
proof -
  have "validateRUC (ascii '' 20123456786  '')" by (rule validateRUC_padded)
  moreover have "getRUCError (ascii ''  2012345678a '') = Some msg_digits_only"
    by (simp add: error_eval_defs)
  ultimately show ?thesis
    using validators_trim_invariant [of "ascii '' 20123456786  ''"]
      validators_trim_invariant [of "ascii ''  2012345678a ''"]
    by simp
qed

section \<open>The length validators: properties\<close>

text \<open>
  C8. \<open>validateUsername\<close> accepts exactly the strings whose trimmed length is between 3
  and 50, and \<open>validateClientName\<close> exactly those whose trimmed length is between 2 and 200.
\<close>

theorem validateUsername_validateClientName_bounds:
  "(validateUsername s \<longleftrightarrow> 3 \<le> length (trim s) \<and> length (trim s) \<le> 50) \<and>
   (validateClientName s \<longleftrightarrow> 2 \<le> length (trim s) \<and> length (trim s) \<le> 200)"
  by (simp add: validateUsername_def validateClientName_def Let_def)

theorem validateUsername_validateClientName_bounds_witness:
  "validateUsername (ascii '' ab c '') \<and> \<not> validateUsername (ascii ''  ab  '') \<and>
   validateClientName (ascii ''  ab  '') \<and> \<not> validateClientName (ascii ''    a '') \<and>
   \<not> validateUsername (replicate 51 0x61) \<and> \<not> validateClientName (replicate 201 0x61)"
proof -
  have t1: "length (trim (ascii '' ab c '')) = 4"
    and t2: "length (trim (ascii ''  ab  '')) = 2"
    and t3: "length (trim (ascii ''    a '')) = 1"
    by (simp_all add: trim_def trimStart_def trimEnd_def ascii_def isWhiteSpace_def)
  have t4: "trim (replicate n 0x61) = replicate n 0x61" for n
    by (rule trim_fix) (cases n, simp_all add: isWhiteSpace_def)
  show ?thesis
    using validateUsername_validateClientName_bounds [of "ascii '' ab c ''"]
      validateUsername_validateClientName_bounds [of "ascii ''  ab  ''"]
      validateUsername_validateClientName_bounds [of "ascii ''    a ''"]
      validateUsername_validateClientName_bounds [of "replicate 51 0x61"]
      validateUsername_validateClientName_bounds [of "replicate 201 0x61"]
    by (simp add: t1 t2 t3 t4)
qed

text \<open>
  C2, as amended. For a password of at most 100 code units, \<open>validatePassword\<close> returns
  true exactly when its length, as it was typed and without trimming, is at least 4 (and
  so between 4 and 100). The sign-up and login screens test the untrimmed
  \<open>password.length\<close> in the same way. What the function does with more than 100 code
  units is left out of the statement: the sign-up screen rejects such a password, and
  \<open>validateUsername\<close> and \<open>validateClientName\<close> carry their upper bounds, while this
  function has none.
\<close>

theorem validatePassword_untrimmed_length:
  "length s \<le> 100 \<longrightarrow> (validatePassword s \<longleftrightarrow> 4 \<le> length s \<and> length s \<le> 100)"
  by (simp add: validatePassword_def)

theorem validatePassword_untrimmed_length_witness:
  "length (ascii ''   a'') \<le> 100 \<and> validatePassword (ascii ''   a'') \<and>
   length (ascii ''abc'') \<le> 100 \<and> \<not> validatePassword (ascii ''abc'') \<and>
   length (replicate 100 (0x61 :: code_unit)) \<le> 100 \<and> validatePassword (replicate 100 0x61)"
proof -
  have a: "length (ascii ''   a'') = 4" and b: "length (ascii ''abc'') = 3"
    by (simp_all add: ascii_def)
  have c: "length (replicate 100 (0x61 :: code_unit)) = 100" by simp
  from a b c validatePassword_untrimmed_length [of "ascii ''   a''"]
    validatePassword_untrimmed_length [of "ascii ''abc''"]
    validatePassword_untrimmed_length [of "replicate 100 0x61"]
  show ?thesis by simp
qed

text \<open>
  The claim as the specification states it (length after trimming between 4 and 100) fails
  on the code twice. Three spaces followed by one letter are accepted although one
  character remains after trimming: passwords are not trimmed anywhere in the application.
  And 101 letters are accepted, which the sign-up screen refuses.
\<close>

theorem validatePassword_claim_counterexample:
  "\<not> (validatePassword (ascii ''   a'') \<longleftrightarrow>
        4 \<le> length (trim (ascii ''   a'')) \<and> length (trim (ascii ''   a'')) \<le> 100) \<and>
   \<not> (validatePassword (replicate 101 0x61) \<longleftrightarrow>
        4 \<le> length (trim (replicate 101 0x61)) \<and> length (trim (replicate 101 0x61)) \<le> 100)"
proof -
  have t1: "length (trim (ascii ''   a'')) = 1"
    by (simp add: trim_def trimStart_def trimEnd_def ascii_def isWhiteSpace_def)
  have t2: "trim (replicate 101 0x61) = replicate 101 0x61"
    by (rule trim_fix) (simp add: isWhiteSpace_def)
  have l: "length (ascii ''   a'') = 4"
    by (simp add: ascii_def)
  show ?thesis
    by (simp add: t1 t2 l validatePassword_def)
qed

end
